theory Spec2Isabelle
  imports Complex_Main "HOL-Library.Sublist"
begin

section \<open>Numbers and the Math library\<close>

text \<open>
  The program computes on JavaScript numbers. The geodesy formulas are modelled over the
  real numbers: \<open>Math.PI\<close> is \<open>pi\<close>, \<open>Math.sin\<close>, \<open>Math.cos\<close> and
  \<open>Math.sqrt\<close> are the real functions, and rounding error, \<open>NaN\<close>, the infinities and
  the sign of zero are outside the model, but for the scan of the chat widget, whose result
  depends on a \<open>NaN\<close> (see there). The square roots of the Haversine formula are taken
  of numbers between 0 and 1 (lemma \<open>haversine_range\<close>). An integer-valued number (the result of
  \<open>Math.round\<close>, an array index) is an \<open>int\<close>.
\<close>

definition Math_atan2 :: "real \<Rightarrow> real \<Rightarrow> real" where
  \<comment> \<open>\<open>Math.atan2(y, x)\<close>: the angle of the point \<open>(x, y)\<close>, in \<open>(-pi, pi]\<close>.\<close>
  "Math_atan2 y x =
     (if 0 < x then arctan (y / x)
      else if x < 0 \<and> 0 \<le> y then arctan (y / x) + pi
      else if x < 0 \<and> y < 0 then arctan (y / x) - pi
      else if 0 < y then pi / 2
      else if y < 0 then - (pi / 2)
      else 0)"

definition Math_round :: "real \<Rightarrow> int" where
  \<comment> \<open>\<open>Math.round\<close>: the nearest integer, a tie going towards plus infinity.\<close>
  "Math_round x = \<lfloor>x + 1 / 2\<rfloor>"

definition js_rem :: "real \<Rightarrow> real \<Rightarrow> real" where
  \<comment> \<open>The \<open>%\<close> operator on numbers: the remainder has the sign of the dividend.\<close>
  "js_rem a b =
     (let q = a / b in a - b * of_int (if 0 \<le> q then \<lfloor>q\<rfloor> else \<lceil>q\<rceil>))"

definition js_irem :: "int \<Rightarrow> int \<Rightarrow> int" where
  \<comment> \<open>The \<open>%\<close> operator on integer-valued numbers.\<close>
  "js_irem k l = sgn k * (\<bar>k\<bar> mod \<bar>l\<bar>)"

definition array_get :: "'a list \<Rightarrow> int \<Rightarrow> 'a option" where
  \<comment> \<open>\<open>xs[i]\<close>: \<open>undefined\<close> (here \<open>None\<close>) when \<open>i\<close> is no index of the array.\<close>
  "array_get xs i = (if 0 \<le> i \<and> i < int (length xs) then Some (xs ! nat i) else None)"

function digits :: "nat \<Rightarrow> string" where
  "digits n = (if n < 10 then [''0123456789'' ! n] else digits (n div 10) @ [''0123456789'' ! (n mod 10)])"
  by pat_completeness auto
termination
  by (relation "measure id") auto

definition number_string :: "int \<Rightarrow> string" where
  \<comment> \<open>The string of an integer-valued number inside a template literal
      (decimal notation, which JavaScript uses below \<open>10^21\<close>).\<close>
  "number_string k = (if k < 0 then CHR ''-'' # digits (nat (- k)) else digits (nat k))"

section \<open>The path network\<close>

datatype NodeType = type_intersection | type_location | type_waypoint

record PathNode =
  node_id :: string
  node_lat :: real
  node_lng :: real
  node_name :: string
  node_type :: NodeType

text \<open>
  A record of the location registry \<open>campusData.locations\<close>. The registry itself is a
  table of another module; every function that reads it takes it as the argument
  \<open>locations\<close>.
\<close>

record Location =
  loc_name :: string
  loc_lat :: real
  loc_lng :: real
  loc_type :: string
  description :: string
  landmarks :: "string option"
  tags :: "string list"
  icon :: string

definition calculateDistance :: "real \<Rightarrow> real \<Rightarrow> real \<Rightarrow> real \<Rightarrow> real" where
  "calculateDistance lat1 lng1 lat2 lng2 =
     (let R = 6371000;
          phi1 = (lat1 * pi) / 180;
          phi2 = (lat2 * pi) / 180;
          dphi = ((lat2 - lat1) * pi) / 180;
          dlam = ((lng2 - lng1) * pi) / 180;
          a = sin (dphi / 2) * sin (dphi / 2) + cos phi1 * cos phi2 * sin (dlam / 2) * sin (dlam / 2);
          c = 2 * Math_atan2 (sqrt a) (sqrt (1 - a))
      in R * c)"

definition calculateBearing :: "real \<Rightarrow> real \<Rightarrow> real \<Rightarrow> real \<Rightarrow> real" where
  "calculateBearing lat1 lng1 lat2 lng2 =
     (let phi1 = (lat1 * pi) / 180;
          phi2 = (lat2 * pi) / 180;
          dlam = ((lng2 - lng1) * pi) / 180;
          y = sin dlam * cos phi2;
          x = cos phi1 * sin phi2 - sin phi1 * cos phi2 * cos dlam;
          theta = Math_atan2 y x
      in js_rem ((theta * 180) / pi + 360) 360)"

definition directions_table :: "string list" where
  "directions_table =
     [''north'', ''northeast'', ''east'', ''southeast'', ''south'', ''southwest'', ''west'', ''northwest'']"

definition bearingToDirection :: "real \<Rightarrow> string option" where
  "bearingToDirection bearing =
     (let index = js_irem (Math_round (bearing / 45)) 8
      in array_get directions_table index)"

definition findPath :: "Location list \<Rightarrow> string \<Rightarrow> string \<Rightarrow> PathNode list option" where
  "findPath locations startLocationName endLocationName =
     (case (find (\<lambda>loc. loc_name loc = startLocationName) locations,
            find (\<lambda>loc. loc_name loc = endLocationName) locations) of
        (Some startLocation, Some endLocation) \<Rightarrow>
          (let midLat = (loc_lat startLocation + loc_lat endLocation) / 2;
               midLng = (loc_lng startLocation + loc_lng endLocation) / 2
           in Some
             [\<lparr>node_id = ''start'', node_lat = loc_lat startLocation, node_lng = loc_lng startLocation,
               node_name = startLocationName, node_type = type_location\<rparr>,
              \<lparr>node_id = ''mid'', node_lat = midLat, node_lng = midLng,
               node_name = ''Midpoint'', node_type = type_waypoint\<rparr>,
              \<lparr>node_id = ''end'', node_lat = loc_lat endLocation, node_lng = loc_lng endLocation,
               node_name = endLocationName, node_type = type_location\<rparr>])
      | _ \<Rightarrow> None)"


text \<open>
  Strings are Isabelle strings: the bytes of the source text, which is UTF-8. The
  pictographs that open four of the direction lines are written as their four bytes.
\<close>

definition template_direction :: "string option \<Rightarrow> string" where
  \<comment> \<open>A value of type \<open>string | undefined\<close> inside a template literal.\<close>
  "template_direction d = (case d of Some s \<Rightarrow> s | None \<Rightarrow> ''undefined'')"

definition tip_new_student :: string where
  "tip_new_student = [CHR 0xF0, CHR 0x9F, CHR 0x92, CHR 0xA1] @ '' Tip: Look for landmarks along the way''"

definition tip_cat_lover :: string where
  "tip_cat_lover = [CHR 0xF0, CHR 0x9F, CHR 0x98, CHR 0xBB] @ '' Keep an eye out for campus cats!''"

definition tip_cat_fearful :: string where
  "tip_cat_fearful = [CHR 0xF0, CHR 0x9F, CHR 0x98, CHR 0xB0] @ '' Stay on well-lit paths''"

definition segment_line :: "PathNode list \<Rightarrow> nat \<Rightarrow> string" where
  \<comment> \<open>The line that iteration \<open>i\<close> of the loop of \<open>generateDirections\<close> pushes first.\<close>
  "segment_line path i =
     (let currentNode = path ! i;
          nextNode = path ! (i + 1);
          distance = calculateDistance (node_lat currentNode) (node_lng currentNode)
                       (node_lat nextNode) (node_lng nextNode);
          bearing = calculateBearing (node_lat currentNode) (node_lng currentNode)
                       (node_lat nextNode) (node_lng nextNode);
          direction = bearingToDirection bearing
      in if i = 0 then
           ''Head '' @ template_direction direction @ '' for '' @ number_string (Math_round distance) @ ''m''
         else if i = length path - 2 then
           ''Continue '' @ template_direction direction @ '' for '' @ number_string (Math_round distance)
             @ ''m to reach '' @ node_name nextNode
         else
           ''Continue '' @ template_direction direction @ '' for '' @ number_string (Math_round distance) @ ''m'')"

definition persona_tip :: "PathNode list \<Rightarrow> string \<Rightarrow> nat \<Rightarrow> string list" where
  \<comment> \<open>The persona-specific tip that iteration \<open>i\<close> pushes after its segment line, if any.\<close>
  "persona_tip path persona i =
     (if persona = ''new-student'' \<and> i = 0 then [tip_new_student]
      else if persona = ''cat-lover'' \<and> i = length path div 2 then [tip_cat_lover]
      else if persona = ''cat-fearful'' \<and> i = 0 then [tip_cat_fearful]
      else [])"

function directions_loop :: "PathNode list \<Rightarrow> string \<Rightarrow> nat \<Rightarrow> string list \<Rightarrow> string list" where
  \<comment> \<open>\<open>for (let i = 0; i < path.length - 1; i++)\<close>, from \<open>i\<close> on, pushing onto \<open>directions\<close>.\<close>
  "directions_loop path persona i directions =
     (if i < length path - 1
      then directions_loop path persona (i + 1)
             (directions @ [segment_line path i] @ persona_tip path persona i)
      else directions)"
  by pat_completeness auto
termination
  by (relation "measure (\<lambda>(path, persona, i, directions). length path - 1 - i)") auto

function totalDistance_loop :: "PathNode list \<Rightarrow> nat \<Rightarrow> real \<Rightarrow> real" where
  \<comment> \<open>\<open>path.reduce((sum, node, i) => ..., 0)\<close>, from index \<open>i\<close> on.\<close>
  "totalDistance_loop path i acc =
     (if i < length path
      then totalDistance_loop path (i + 1)
             (if i = 0 then 0
              else acc + calculateDistance (node_lat (path ! (i - 1))) (node_lng (path ! (i - 1)))
                           (node_lat (path ! i)) (node_lng (path ! i)))
      else acc)"
  by pat_completeness auto
termination
  by (relation "measure (\<lambda>(path, i, acc). length path - i)") auto

declare directions_loop.simps [simp del] totalDistance_loop.simps [simp del]

definition generateDirections :: "PathNode list \<Rightarrow> string \<Rightarrow> string list" where
  "generateDirections path persona =
     (if length path < 2 then []
      else
        (let directions = directions_loop path persona 0 [''Start at '' @ node_name (path ! 0)];
             totalDistance = totalDistance_loop path 0 0
         in directions
            @ [''Arrive at '' @ node_name (path ! (length path - 1))]
            @ [[CHR 0xF0, CHR 0x9F, CHR 0x93, CHR 0x8D] @ '' Total distance: ''
                 @ number_string (Math_round totalDistance) @ ''m'']))"

section \<open>The chat widget\<close>

definition nav_calculateDistance :: "real \<Rightarrow> real \<Rightarrow> real \<Rightarrow> real \<Rightarrow> real" where
  \<comment> \<open>The widget's own copy of the Haversine distance.\<close>
  "nav_calculateDistance lat1 lon1 lat2 lon2 =
     (let R = 6371000;
          phi1 = (lat1 * pi) / 180;
          phi2 = (lat2 * pi) / 180;
          dphi = ((lat2 - lat1) * pi) / 180;
          dlam = ((lon2 - lon1) * pi) / 180;
          a = sin (dphi / 2) * sin (dphi / 2) + cos phi1 * cos phi2 * sin (dlam / 2) * sin (dlam / 2);
          c = 2 * Math_atan2 (sqrt a) (sqrt (1 - a))
      in R * c)"

datatype MessageType = user | ai

record Message =
  msg_type :: MessageType
  msg_text :: string

datatype Permission = granted | denied | prompt

datatype Callback = onLocationFound Location | onRouteRequest string string

datatype js_error = TypeError

text \<open>
  The state of the widget that \<open>processQuery\<close> reads and writes: the message list, the
  device position and the permission. \<open>calls\<close> records, in order, the calls made to the
  two callback props.
\<close>

record Navigator =
  messages :: "Message list"
  userLocation :: "(real \<times> real) option"
  locationPermission :: Permission
  calls :: "Callback list"

text \<open>
  The scan for the nearest location compares computed distances, and a comparison with
  \<open>NaN\<close> is false. In double arithmetic the computed value of \<open>a\<close> differs from the real
  one by a rounding error; where it leaves the interval from 0 to 1, \<open>Math.sqrt\<close> is
  applied to a negative number and the distance is \<open>NaN\<close>. The scan is therefore modelled
  on numbers that may be \<open>NaN\<close>, and it takes the rounding error of \<open>a\<close> as the function
  \<open>err\<close> of the four coordinates (the constant 0 is exact arithmetic).
\<close>

datatype js_number = NaN | Num real | POSITIVE_INFINITY

fun below :: "js_number \<Rightarrow> js_number \<Rightarrow> bool" where
  \<comment> \<open>\<open>distance < minDistance\<close>: false as soon as one side is \<open>NaN\<close>.\<close>
  "below (Num d) (Num m) = (d < m)"
| "below (Num d) POSITIVE_INFINITY = True"
| "below _ _ = False"

definition Math_sqrt :: "real \<Rightarrow> js_number" where
  \<comment> \<open>\<open>Math.sqrt\<close>: \<open>NaN\<close> on a negative number.\<close>
  "Math_sqrt x = (if x < 0 then NaN else Num (sqrt x))"

definition nav_calculateDistance_double ::
  "(real \<Rightarrow> real \<Rightarrow> real \<Rightarrow> real \<Rightarrow> real) \<Rightarrow> real \<Rightarrow> real \<Rightarrow> real \<Rightarrow> real \<Rightarrow> js_number" where
  \<comment> \<open>The widget's distance as it is computed: \<open>a\<close> carries its rounding error, and
      \<open>NaN\<close> from a square root goes through \<open>Math.atan2\<close> and the products.\<close>
  "nav_calculateDistance_double err lat1 lon1 lat2 lon2 =
     (let R = 6371000;
          phi1 = (lat1 * pi) / 180;
          phi2 = (lat2 * pi) / 180;
          dphi = ((lat2 - lat1) * pi) / 180;
          dlam = ((lon2 - lon1) * pi) / 180;
          a = sin (dphi / 2) * sin (dphi / 2) + cos phi1 * cos phi2 * sin (dlam / 2) * sin (dlam / 2)
                + err lat1 lon1 lat2 lon2
      in case (Math_sqrt a, Math_sqrt (1 - a)) of
           (Num y, Num x) \<Rightarrow> Num (R * (2 * Math_atan2 y x))
         | _ \<Rightarrow> NaN)"

definition nearest_step ::
  "(real \<Rightarrow> real \<Rightarrow> real \<Rightarrow> real \<Rightarrow> real) \<Rightarrow> real \<Rightarrow> real \<Rightarrow> Location
     \<Rightarrow> Location option \<times> js_number \<Rightarrow> Location option \<times> js_number" where
  \<comment> \<open>One call of the \<open>forEach\<close> callback on \<open>(nearestLocation, minDistance)\<close>.\<close>
  "nearest_step err userLat userLng location st =
     (let distance = nav_calculateDistance_double err userLat userLng (loc_lat location) (loc_lng location)
      in if below distance (snd st) then (Some location, distance) else st)"

definition findNearestLocation ::
  "(real \<Rightarrow> real \<Rightarrow> real \<Rightarrow> real \<Rightarrow> real) \<Rightarrow> Location list \<Rightarrow> real \<Rightarrow> real \<Rightarrow> Location option" where
  "findNearestLocation err locations userLat userLng =
     fst (fold (nearest_step err userLat userLng) locations (None, POSITIVE_INFINITY))"

text \<open>
  Text of the query: \<open>toLowerCase\<close>, \<open>trim\<close> and the separator \<open>\s+\<close> on ASCII
  (the Latin capitals; tab, line feed, vertical tab, form feed, carriage return, space).
\<close>

definition lower_char :: "char \<Rightarrow> char" where
  "lower_char c =
     (case map_of (zip ''ABCDEFGHIJKLMNOPQRSTUVWXYZ'' ''abcdefghijklmnopqrstuvwxyz'') c of
        Some d \<Rightarrow> d | None \<Rightarrow> c)"

definition toLowerCase :: "string \<Rightarrow> string" where
  "toLowerCase s = map lower_char s"

definition is_space :: "char \<Rightarrow> bool" where
  "is_space c = (c \<in> set [CHR 0x09, CHR 0x0A, CHR 0x0B, CHR 0x0C, CHR 0x0D, CHR 0x20])"

definition trim :: "string \<Rightarrow> string" where
  "trim s = rev (dropWhile is_space (rev (dropWhile is_space s)))"

fun split_aux :: "string \<Rightarrow> bool \<Rightarrow> string \<Rightarrow> string list" where
  \<comment> \<open>\<open>cur\<close>: the token read so far, reversed; \<open>in_sep\<close>: inside a run of separators.\<close>
  "split_aux cur in_sep [] = [rev cur]"
| "split_aux cur in_sep (c # cs) =
     (if is_space c
      then (if in_sep then split_aux cur True cs else rev cur # split_aux [] True cs)
      else split_aux (c # cur) False cs)"

definition split_ws :: "string \<Rightarrow> string list" where
  \<comment> \<open>\<open>s.split(/\s+/)\<close>\<close>
  "split_ws s = split_aux [] False s"

fun str_includes :: "string \<Rightarrow> string \<Rightarrow> bool" where
  \<comment> \<open>\<open>s.includes(sub)\<close>\<close>
  "str_includes [] sub = (sub = [])"
| "str_includes (c # cs) sub = (prefix sub (c # cs) \<or> str_includes cs sub)"

definition extract_keywords :: "string \<Rightarrow> string list" where
  "extract_keywords userQuery =
     (let lowerQuery = trim (toLowerCase userQuery)
      in filter (\<lambda>word. length word > 2) (split_ws lowerQuery))"

definition score_location :: "string list \<Rightarrow> Location \<Rightarrow> int" where
  \<comment> \<open>The three \<open>forEach\<close> passes over the keywords, each adding to \<open>score\<close>.\<close>
  "score_location keywords location =
     (let score1 = fold (\<lambda>keyword score.
                      fold (\<lambda>tag score.
                        if str_includes tag keyword \<or> str_includes keyword tag then score + 3 else score)
                        (tags location) score) keywords 0;
          score2 = fold (\<lambda>keyword score.
                      if str_includes (toLowerCase (loc_name location)) keyword then score + 2 else score)
                      keywords score1;
          score3 = fold (\<lambda>keyword score.
                      if str_includes (toLowerCase (description location)) keyword then score + 1 else score)
                      keywords score2
      in score3)"

definition scoredLocations :: "Location list \<Rightarrow> string list \<Rightarrow> (Location \<times> int) list" where
  \<comment> \<open>The scored registry after \<open>sort((a, b) => b.score - a.score)\<close>, a stable sort.\<close>
  "scoredLocations locations keywords =
     sort_key (\<lambda>p. - snd p) (map (\<lambda>location. (location, score_location keywords location)) locations)"

definition fallback_text :: string where
  "fallback_text = ''Hmm, I'm not sure where that is, but you can explore the map! Try asking about food, study spots, romantic places, or sports facilities.''"

definition processQuery ::
  "(real \<Rightarrow> real \<Rightarrow> real \<Rightarrow> real \<Rightarrow> real) \<Rightarrow> Location list \<Rightarrow> Navigator \<Rightarrow> string
     \<Rightarrow> js_error + Navigator" where
  \<comment> \<open>\<open>err\<close> is the rounding error that \<open>findNearestLocation\<close> computes with.\<close>
  "processQuery err locations st userQuery =
     (let keywords = extract_keywords userQuery
      in case scoredLocations locations keywords of
           [] \<Rightarrow> Inl TypeError
         | bestMatch # _ \<Rightarrow>
             if snd bestMatch > 0 then
               (let best = fst bestMatch;
                    found = (\<lambda>response cs.
                      Inr (st\<lparr>messages := messages st
                                 @ [\<lparr>msg_type = user, msg_text = userQuery\<rparr>, \<lparr>msg_type = ai, msg_text = response\<rparr>],
                               calls := calls st @ cs @ [onLocationFound best]\<rparr>))
                in case (userLocation st, locationPermission st) of
                     (Some (lat, lng), granted) \<Rightarrow>
                       (case findNearestLocation err locations lat lng of
                          Some nearestLocation \<Rightarrow>
                            found (''Perfect! I found '' @ loc_name best @ '' for you. '' @ description best
                                   @ '' I'm showing you the route from '' @ loc_name nearestLocation
                                   @ '' (nearest to your current location).'')
                              [onRouteRequest (loc_name nearestLocation) (loc_name best)]
                        | None \<Rightarrow>
                            found (''You can try the '' @ loc_name best @ ''! '' @ description best) [])
                   | _ \<Rightarrow>
                       found (''I'd recommend '' @ loc_name best @ ''. '' @ description best
                              @ '' (Enable location access to get directions from your current position!)'') [])
             else
               Inr (st\<lparr>messages := messages st
                          @ [\<lparr>msg_type = user, msg_text = userQuery\<rparr>, \<lparr>msg_type = ai, msg_text = fallback_text\<rparr>]\<rparr>))"


section \<open>The keyword score as the contract words it\<close>

definition spec_score :: "string list \<Rightarrow> Location \<Rightarrow> int" where
  \<comment> \<open>The score as the contract words it: 3 for each token that matches any tag, 2 for
      each token inside the lowercased name, 1 for each token inside the lowercased
      description.\<close>
  "spec_score keywords location =
     3 * int (length (filter (\<lambda>keyword.
                \<exists>tag \<in> set (tags location). str_includes tag keyword \<or> str_includes keyword tag) keywords))
     + 2 * int (length (filter (\<lambda>keyword. str_includes (toLowerCase (loc_name location)) keyword) keywords))
     + int (length (filter (\<lambda>keyword. str_includes (toLowerCase (description location)) keyword) keywords))"

section \<open>Example data\<close>

text \<open>The two points of the worked example: A = (18.6200, 73.9100), B = (18.6220, 73.9120).\<close>

definition loc_A :: Location where
  "loc_A = \<lparr>loc_name = ''A'', loc_lat = 18.62, loc_lng = 73.91, loc_type = ''study'',
            description = ''A quiet reading room'', landmarks = None,
            tags = [''study'', ''study-room'', ''quiet''], icon = ''A''\<rparr>"

definition loc_B :: Location where
  "loc_B = \<lparr>loc_name = ''B'', loc_lat = 18.622, loc_lng = 73.912, loc_type = ''food'',
            description = ''Snacks and tea'', landmarks = Some ''Next to the gate'',
            tags = [''food'', ''snack''], icon = ''B''\<rparr>"

definition node_A :: PathNode where
  "node_A = \<lparr>node_id = ''start'', node_lat = 18.62, node_lng = 73.91,
             node_name = ''A'', node_type = type_location\<rparr>"

definition node_M :: PathNode where
  "node_M = \<lparr>node_id = ''mid'', node_lat = 18.621, node_lng = 73.911,
             node_name = ''Midpoint'', node_type = type_waypoint\<rparr>"

definition node_B :: PathNode where
  "node_B = \<lparr>node_id = ''end'', node_lat = 18.622, node_lng = 73.912,
             node_name = ''B'', node_type = type_location\<rparr>"

text \<open>A widget that has just obtained the device position, at the point A.\<close>

definition nav_0 :: Navigator where
  "nav_0 = \<lparr>messages = [], userLocation = Some (18.62, 73.91),
            locationPermission = granted, calls = []\<rparr>"




definition err_exact :: "real \<Rightarrow> real \<Rightarrow> real \<Rightarrow> real \<Rightarrow> real" where
  "err_exact lat1 lon1 lat2 lon2 = 0"

section \<open>Geodesy\<close>

lemma Math_atan2_bounds: "- pi < Math_atan2 y x \<and> Math_atan2 y x \<le> pi"
proof -
  have b: "- (pi / 2) < arctan (y / x)" "arctan (y / x) < pi / 2"
    by (rule arctan_lbound, rule arctan_ubound)
  have c: "x < 0 \<Longrightarrow> 0 \<le> y \<Longrightarrow> arctan (y / x) \<le> 0"
    by (simp add: divide_nonneg_neg)
  have d: "x < 0 \<Longrightarrow> y < 0 \<Longrightarrow> 0 < arctan (y / x)"
    by (simp add: divide_neg_neg)
  have p: "0 < pi" by simp
  show ?thesis unfolding Math_atan2_def using b c d p by (auto; linarith)
qed

lemma js_rem_range:
  assumes a: "0 \<le> a" and b: "0 < b"
  shows "0 \<le> js_rem a b \<and> js_rem a b < b"
proof -
  have q: "0 \<le> a / b" using a b by simp
  have lo: "b * of_int \<lfloor>a / b\<rfloor> \<le> a"
    using floor_divide_lower [OF b, of a] by (simp add: mult.commute)
  have hi: "a < b * (of_int \<lfloor>a / b\<rfloor> + 1)"
    using floor_divide_upper [OF b, of a] by (simp add: mult.commute)
  show ?thesis using q lo hi by (simp add: js_rem_def Let_def algebra_simps)
qed

text \<open>
  The argument \<open>a\<close> of the two square roots of the Haversine formula lies between 0 and
  1, so that both roots are roots of non-negative numbers, and the distance lies between 0
  and half the circumference of the sphere.
\<close>

lemma hav_half: "sin (x / 2) * sin (x / 2) = (1 - cos x) / (2::real)"
proof -
  have "cos (2 * (x / 2)) = 1 - 2 * (sin (x / 2))\<^sup>2" by (rule cos_double_sin)
  then show ?thesis by (simp add: power2_eq_square)
qed

lemma unit_dot_bound:
  fixes s1 c1 s2 c2 k :: real
  assumes u1: "s1\<^sup>2 + c1\<^sup>2 = 1" and u2: "s2\<^sup>2 + c2\<^sup>2 = 1" and k: "\<bar>k\<bar> \<le> 1"
  shows "\<bar>s1 * s2 + c1 * c2 * k\<bar> \<le> 1"
proof -
  have a: "2 * \<bar>s1\<bar> * \<bar>s2\<bar> \<le> s1\<^sup>2 + s2\<^sup>2"
    using sum_squares_bound [of "\<bar>s1\<bar>" "\<bar>s2\<bar>"] by simp
  have b: "2 * \<bar>c1\<bar> * \<bar>c2\<bar> \<le> c1\<^sup>2 + c2\<^sup>2"
    using sum_squares_bound [of "\<bar>c1\<bar>" "\<bar>c2\<bar>"] by simp
  have "\<bar>c1 * c2 * k\<bar> = \<bar>c1\<bar> * \<bar>c2\<bar> * \<bar>k\<bar>" by (simp add: abs_mult)
  also have "\<dots> \<le> \<bar>c1\<bar> * \<bar>c2\<bar> * 1"
    by (rule mult_left_mono [OF k]) simp
  finally have c: "\<bar>c1 * c2 * k\<bar> \<le> \<bar>c1\<bar> * \<bar>c2\<bar>" by simp
  have "\<bar>s1 * s2 + c1 * c2 * k\<bar> \<le> \<bar>s1 * s2\<bar> + \<bar>c1 * c2 * k\<bar>" by (rule abs_triangle_ineq)
  also have "\<dots> \<le> \<bar>s1\<bar> * \<bar>s2\<bar> + \<bar>c1\<bar> * \<bar>c2\<bar>" using c by (simp add: abs_mult)
  also have "\<dots> \<le> 1" using a b u1 u2 by linarith
  finally show ?thesis .
qed

lemma haversine_range:
  fixes p1 p2 l :: real
  shows "0 \<le> sin ((p2 - p1) / 2) * sin ((p2 - p1) / 2) + cos p1 * cos p2 * sin (l / 2) * sin (l / 2)
       \<and> sin ((p2 - p1) / 2) * sin ((p2 - p1) / 2) + cos p1 * cos p2 * sin (l / 2) * sin (l / 2) \<le> 1"
proof -
  let ?a = "sin ((p2 - p1) / 2) * sin ((p2 - p1) / 2) + cos p1 * cos p2 * sin (l / 2) * sin (l / 2)"
  have "cos p1 * cos p2 * sin (l / 2) * sin (l / 2) = cos p1 * cos p2 * (sin (l / 2) * sin (l / 2))"
    by simp
  then have "?a = (1 - cos (p2 - p1)) / 2 + cos p1 * cos p2 * ((1 - cos l) / 2)"
    by (simp only: hav_half)
  also have "\<dots> = (1 - (sin p1 * sin p2 + cos p1 * cos p2 * cos l)) / 2"
    by (simp add: cos_diff field_simps)
  finally have eq: "?a = (1 - (sin p1 * sin p2 + cos p1 * cos p2 * cos l)) / 2" .
  have "\<bar>sin p1 * sin p2 + cos p1 * cos p2 * cos l\<bar> \<le> 1"
    by (rule unit_dot_bound) simp_all
  then show ?thesis unfolding eq by (simp add: abs_le_iff)
qed

lemma Math_atan2_quadrant: "0 \<le> y \<Longrightarrow> 0 \<le> x \<Longrightarrow> 0 \<le> Math_atan2 y x \<and> Math_atan2 y x \<le> pi / 2"
  using arctan_ubound [of "y / x"] by (auto simp: Math_atan2_def intro: less_imp_le)

lemma calculateDistance_range:
  "0 \<le> calculateDistance lat1 lng1 lat2 lng2 \<and> calculateDistance lat1 lng1 lat2 lng2 \<le> 6371000 * pi"
proof -
  let ?p1 = "(lat1 * pi) / 180" and ?p2 = "(lat2 * pi) / 180" and ?l = "((lng2 - lng1) * pi) / 180"
  let ?a = "sin ((?p2 - ?p1) / 2) * sin ((?p2 - ?p1) / 2) + cos ?p1 * cos ?p2 * sin (?l / 2) * sin (?l / 2)"
  have d: "((lat2 - lat1) * pi) / 180 = ?p2 - ?p1" by (simp add: algebra_simps diff_divide_distrib)
  have r: "0 \<le> ?a \<and> ?a \<le> 1" by (rule haversine_range)
  then have "0 \<le> sqrt ?a" "0 \<le> sqrt (1 - ?a)" by simp_all
  then have "0 \<le> Math_atan2 (sqrt ?a) (sqrt (1 - ?a)) \<and> Math_atan2 (sqrt ?a) (sqrt (1 - ?a)) \<le> pi / 2"
    by (rule Math_atan2_quadrant)
  then show ?thesis unfolding calculateDistance_def Let_def d by simp
qed

text \<open>
  Claim C7. The distance is symmetric in its two points, and the distance from a point to
  itself is 0.
\<close>

theorem calculateDistance_symmetric_and_zero:
  "calculateDistance lat1 lng1 lat2 lng2 = calculateDistance lat2 lng2 lat1 lng1
   \<and> calculateDistance lat lng lat lng = 0"
proof
  have e1: "((lat1 - lat2) * pi) / 180 = - (((lat2 - lat1) * pi) / 180)"
    by (simp add: algebra_simps diff_divide_distrib)
  have e2: "((lng1 - lng2) * pi) / 180 = - (((lng2 - lng1) * pi) / 180)"
    by (simp add: algebra_simps diff_divide_distrib)
  show "calculateDistance lat1 lng1 lat2 lng2 = calculateDistance lat2 lng2 lat1 lng1"
    unfolding calculateDistance_def Let_def e1 e2 by (simp add: mult.commute)
next
  show "calculateDistance lat lng lat lng = 0"
    by (simp add: calculateDistance_def Math_atan2_def)
qed

lemma calculateBearing_bounds:
  "0 \<le> calculateBearing lat1 lng1 lat2 lng2 \<and> calculateBearing lat1 lng1 lat2 lng2 < 360"
proof -
  define th where "th = Math_atan2 (sin (((lng2 - lng1) * pi) / 180) * cos ((lat2 * pi) / 180))
     (cos ((lat1 * pi) / 180) * sin ((lat2 * pi) / 180)
        - sin ((lat1 * pi) / 180) * cos ((lat2 * pi) / 180) * cos (((lng2 - lng1) * pi) / 180))"
  have "- pi < th" using Math_atan2_bounds th_def by blast
  then have "- 180 < (th * 180) / pi" using pi_gt_zero by (simp add: pos_less_divide_eq)
  then have "0 \<le> (th * 180) / pi + 360" by linarith
  then have "0 \<le> js_rem ((th * 180) / pi + 360) 360 \<and> js_rem ((th * 180) / pi + 360) 360 < 360"
    by (rule js_rem_range) simp
  then show ?thesis by (simp add: calculateBearing_def Let_def th_def)
qed

text \<open>
  Claim C6. The bearing between any two points lies in the half-open interval from 0 to 360.
\<close>

theorem calculateBearing_range:
  "0 \<le> calculateBearing lat1 lng1 lat2 lng2 \<and> calculateBearing lat1 lng1 lat2 lng2 < 360"
  by (rule calculateBearing_bounds)

text \<open>
  Claim C10. The Haversine distance of the path network and the copy inside the chat widget
  return the same value on every four inputs.
\<close>

theorem calculateDistance_copies_agree:
  "nav_calculateDistance lat1 lng1 lat2 lng2 = calculateDistance lat1 lng1 lat2 lng2"
  by (simp add: nav_calculateDistance_def calculateDistance_def)

section \<open>Compass labels\<close>

lemma Math_round_nonneg: "- (45 / 2) \<le> bearing \<Longrightarrow> 0 \<le> Math_round (bearing / 45)"
  by (simp add: Math_round_def)

lemma bearingToDirection_index:
  assumes h: "- (45 / 2) \<le> bearing"
  shows "bearingToDirection bearing = Some (directions_table ! nat (Math_round (bearing / 45) mod 8))
         \<and> nat (Math_round (bearing / 45) mod 8) < length directions_table"
proof -
  define k where "k = Math_round (bearing / 45)"
  have k0: "0 \<le> k" unfolding k_def using h by (rule Math_round_nonneg)
  then have r: "js_irem k 8 = k mod 8" by (cases "k = 0") (auto simp: js_irem_def)
  have m: "0 \<le> k mod 8" "k mod 8 < 8" by simp_all
  have g: "bearingToDirection bearing = Some (directions_table ! nat (k mod 8))"
    using m by (simp add: bearingToDirection_def k_def [symmetric] r array_get_def directions_table_def)
  have "nat (k mod 8) < length directions_table" using m by (simp add: directions_table_def)
  then show ?thesis using g by (simp add: k_def)
qed

text \<open>
  The direction of a segment is always one of the eight labels: the template of a segment
  line never prints \<open>undefined\<close>.
\<close>

lemma direction_of_bearing_defined:
  "\<exists>d \<in> set directions_table.
     bearingToDirection (calculateBearing lat1 lng1 lat2 lng2) = Some d"
proof -
  have "- (45 / 2) \<le> calculateBearing lat1 lng1 lat2 lng2"
    using calculateBearing_bounds [of lat1 lng1 lat2 lng2] by simp
  from bearingToDirection_index [OF this] show ?thesis by (simp add: nth_mem)
qed

text \<open>
  Claim C4, as stated: every finite bearing yields one of the eight labels. At the bearing
  -45 the rounded quotient is -1, the remainder -1 keeps the sign, and the table has no
  entry there: the result is undefined.
\<close>

theorem bearingToDirection_counterexample:
  "bearingToDirection (- 45) = None"
  by (simp add: bearingToDirection_def Math_round_def js_irem_def array_get_def)

text \<open>
  Claim C4, amended. For every bearing of at least -22.5 (so for every non-negative one, and
  for every value that \<open>calculateBearing\<close> returns) the result is one of the eight labels:
  the entry of the table at the rounded quotient \<open>bearing / 45\<close> modulo 8.
\<close>

theorem bearingToDirection_label:
  "- (45 / 2) \<le> bearing \<Longrightarrow>
     bearingToDirection bearing =
       Some ([''north'', ''northeast'', ''east'', ''southeast'', ''south'', ''southwest'', ''west'', ''northwest'']
               ! nat (\<lfloor>bearing / 45 + 1 / 2\<rfloor> mod 8))
     \<and> the (bearingToDirection bearing) \<in>
         {''north'', ''northeast'', ''east'', ''southeast'', ''south'', ''southwest'', ''west'', ''northwest''}"
proof -
  assume h: "- (45 / 2) \<le> bearing"
  from bearingToDirection_index [OF h]
  have g: "bearingToDirection bearing = Some (directions_table ! nat (Math_round (bearing / 45) mod 8))"
    and "nat (Math_round (bearing / 45) mod 8) < length directions_table" by simp_all
  then have "directions_table ! nat (Math_round (bearing / 45) mod 8) \<in> set directions_table"
    by (simp only: nth_mem)
  then show ?thesis using g by (simp add: directions_table_def Math_round_def)
qed

theorem bearingToDirection_label_witness:
  "- (45 / 2) \<le> (100::real) \<and> bearingToDirection 100 = Some ''east''"
  using bearingToDirection_label [of 100] by simp

section \<open>The path generator\<close>

lemma find_name_None:
  "find (\<lambda>loc. loc_name loc = s) locations = None \<longleftrightarrow> s \<notin> loc_name ` set locations"
  by (auto simp: find_None_iff)

lemma find_name_Some:
  "find (\<lambda>loc. loc_name loc = s) locations = Some a \<Longrightarrow> a \<in> set locations \<and> loc_name a = s"
  by (auto simp: find_Some_iff)

lemma find_name_distinct:
  "distinct (map loc_name locations) \<Longrightarrow> a \<in> set locations \<Longrightarrow>
   find (\<lambda>loc. loc_name loc = loc_name a) locations = Some a"
proof (induction locations)
  case Nil
  then show ?case by simp
next
  case (Cons x xs)
  then show ?case by (cases "loc_name x = loc_name a") force+
qed

text \<open>
  Claim C2. When both names occur in the registry, \<open>findPath\<close> returns exactly three nodes:
  the coordinates of a registry location with the start name, typed location; the mean of the
  two endpoints' latitudes and longitudes, typed waypoint; the coordinates of a registry
  location with the end name, typed location. When a name does not occur, the result is
  absent. Where the names of the registry are unique, the endpoints are the two locations
  themselves.
\<close>

theorem findPath_three_nodes_or_absent:
  "(s \<in> loc_name ` set locations \<and> e \<in> loc_name ` set locations \<longrightarrow>
      (\<exists>a b. a \<in> set locations \<and> b \<in> set locations \<and> loc_name a = s \<and> loc_name b = e \<and>
         findPath locations s e = Some
           [\<lparr>node_id = ''start'', node_lat = loc_lat a, node_lng = loc_lng a,
             node_name = s, node_type = type_location\<rparr>,
            \<lparr>node_id = ''mid'', node_lat = (loc_lat a + loc_lat b) / 2,
             node_lng = (loc_lng a + loc_lng b) / 2,
             node_name = ''Midpoint'', node_type = type_waypoint\<rparr>,
            \<lparr>node_id = ''end'', node_lat = loc_lat b, node_lng = loc_lng b,
             node_name = e, node_type = type_location\<rparr>]))
   \<and> (s \<notin> loc_name ` set locations \<or> e \<notin> loc_name ` set locations \<longrightarrow>
        findPath locations s e = None)
   \<and> (distinct (map loc_name locations) \<longrightarrow>
        (\<forall>a \<in> set locations. \<forall>b \<in> set locations.
           findPath locations (loc_name a) (loc_name b) = Some
             [\<lparr>node_id = ''start'', node_lat = loc_lat a, node_lng = loc_lng a,
               node_name = loc_name a, node_type = type_location\<rparr>,
              \<lparr>node_id = ''mid'', node_lat = (loc_lat a + loc_lat b) / 2,
               node_lng = (loc_lng a + loc_lng b) / 2,
               node_name = ''Midpoint'', node_type = type_waypoint\<rparr>,
              \<lparr>node_id = ''end'', node_lat = loc_lat b, node_lng = loc_lng b,
               node_name = loc_name b, node_type = type_location\<rparr>]))"
proof (intro conjI impI ballI)
  assume "s \<in> loc_name ` set locations \<and> e \<in> loc_name ` set locations"
  then obtain a b where a: "find (\<lambda>loc. loc_name loc = s) locations = Some a"
    and b: "find (\<lambda>loc. loc_name loc = e) locations = Some b"
    using find_name_None [of s locations] find_name_None [of e locations] by auto
  from a b show "\<exists>a b. a \<in> set locations \<and> b \<in> set locations \<and> loc_name a = s \<and> loc_name b = e \<and>
         findPath locations s e = Some
           [\<lparr>node_id = ''start'', node_lat = loc_lat a, node_lng = loc_lng a,
             node_name = s, node_type = type_location\<rparr>,
            \<lparr>node_id = ''mid'', node_lat = (loc_lat a + loc_lat b) / 2,
             node_lng = (loc_lng a + loc_lng b) / 2,
             node_name = ''Midpoint'', node_type = type_waypoint\<rparr>,
            \<lparr>node_id = ''end'', node_lat = loc_lat b, node_lng = loc_lng b,
             node_name = e, node_type = type_location\<rparr>]"
    using find_name_Some [OF a] find_name_Some [OF b]
    by (intro exI [of _ a] exI [of _ b]) (simp add: findPath_def)
next
  assume "s \<notin> loc_name ` set locations \<or> e \<notin> loc_name ` set locations"
  then have "find (\<lambda>loc. loc_name loc = s) locations = None
               \<or> find (\<lambda>loc. loc_name loc = e) locations = None"
    by (simp only: find_name_None)
  then show "findPath locations s e = None"
    by (auto simp: findPath_def split: option.splits)
next
  fix a b
  assume "distinct (map loc_name locations)" "a \<in> set locations" "b \<in> set locations"
  then show "findPath locations (loc_name a) (loc_name b) = Some
             [\<lparr>node_id = ''start'', node_lat = loc_lat a, node_lng = loc_lng a,
               node_name = loc_name a, node_type = type_location\<rparr>,
              \<lparr>node_id = ''mid'', node_lat = (loc_lat a + loc_lat b) / 2,
               node_lng = (loc_lng a + loc_lng b) / 2,
               node_name = ''Midpoint'', node_type = type_waypoint\<rparr>,
              \<lparr>node_id = ''end'', node_lat = loc_lat b, node_lng = loc_lng b,
               node_name = loc_name b, node_type = type_location\<rparr>]"
    by (simp add: findPath_def find_name_distinct)
qed

theorem findPath_three_nodes_or_absent_witness:
  "distinct (map loc_name [loc_A, loc_B])
   \<and> findPath [loc_A, loc_B] ''A'' ''B'' = Some
       [\<lparr>node_id = ''start'', node_lat = 18.62, node_lng = 73.91,
         node_name = ''A'', node_type = type_location\<rparr>,
        \<lparr>node_id = ''mid'', node_lat = 18.621, node_lng = 73.911,
         node_name = ''Midpoint'', node_type = type_waypoint\<rparr>,
        \<lparr>node_id = ''end'', node_lat = 18.622, node_lng = 73.912,
         node_name = ''B'', node_type = type_location\<rparr>]
   \<and> ''C'' \<notin> loc_name ` set [loc_A, loc_B]
   \<and> findPath [loc_A, loc_B] ''A'' ''C'' = None"
proof -
  have d: "distinct (map loc_name [loc_A, loc_B])" by (simp add: loc_A_def loc_B_def)
  have n: "''C'' \<notin> loc_name ` set [loc_A, loc_B]" by (simp add: loc_A_def loc_B_def)
  have names: "loc_name loc_A = ''A''" "loc_name loc_B = ''B''" by (simp_all add: loc_A_def loc_B_def)
  have "findPath [loc_A, loc_B] (loc_name loc_A) (loc_name loc_B) = Some
       [\<lparr>node_id = ''start'', node_lat = loc_lat loc_A, node_lng = loc_lng loc_A,
         node_name = loc_name loc_A, node_type = type_location\<rparr>,
        \<lparr>node_id = ''mid'', node_lat = (loc_lat loc_A + loc_lat loc_B) / 2,
         node_lng = (loc_lng loc_A + loc_lng loc_B) / 2,
         node_name = ''Midpoint'', node_type = type_waypoint\<rparr>,
        \<lparr>node_id = ''end'', node_lat = loc_lat loc_B, node_lng = loc_lng loc_B,
         node_name = loc_name loc_B, node_type = type_location\<rparr>]"
    using findPath_three_nodes_or_absent [of "''A''" "[loc_A, loc_B]" "''B''"] d by simp
  then have f: "findPath [loc_A, loc_B] ''A'' ''B'' = Some
       [\<lparr>node_id = ''start'', node_lat = 18.62, node_lng = 73.91,
         node_name = ''A'', node_type = type_location\<rparr>,
        \<lparr>node_id = ''mid'', node_lat = 18.621, node_lng = 73.911,
         node_name = ''Midpoint'', node_type = type_waypoint\<rparr>,
        \<lparr>node_id = ''end'', node_lat = 18.622, node_lng = 73.912,
         node_name = ''B'', node_type = type_location\<rparr>]"
    unfolding names by (simp add: loc_A_def loc_B_def)
  have "findPath [loc_A, loc_B] ''A'' ''C'' = None"
    using findPath_three_nodes_or_absent [of "''A''" "[loc_A, loc_B]" "''C''"] n by blast
  then show ?thesis using d n f by blast
qed

section \<open>The directions generator\<close>

lemma directions_loop_concat:
  "directions_loop path persona i acc =
     acc @ concat (map (\<lambda>j. segment_line path j # persona_tip path persona j) [i..<length path - 1])"
proof (induction path persona i acc rule: directions_loop.induct)
  case (1 path persona i directions)
  show ?case
  proof (cases "i < length path - 1")
    case True
    then show ?thesis
      using "1.IH" by (subst directions_loop.simps) (simp add: upt_conv_Cons)
  next
    case False
    then show ?thesis by (subst directions_loop.simps) simp
  qed
qed

lemma concat_no_tip:
  "m \<notin> set js \<Longrightarrow> concat (map (\<lambda>j. seg j # (if j = m then [t] else [])) js) = map seg js"
  by (induction js) auto

lemma concat_single_tip:
  assumes "m < k"
  shows "concat (map (\<lambda>j. seg j # (if j = m then [t] else [])) [0..<k])
           = map seg [0..<Suc m] @ [t] @ map seg [Suc m..<k]"
proof -
  have split: "[0..<k] = [0..<m] @ m # [Suc m..<k]"
    using assms by (metis le_add1 less_imp_add_positive upt_add_eq_append upt_conv_Cons plus_nat.add_0)
  have a: "m \<notin> set [0..<m]" and b: "m \<notin> set [Suc m..<k]" by simp_all
  show ?thesis
    unfolding split using concat_no_tip [OF a, of seg t] concat_no_tip [OF b, of seg t] by simp
qed

lemma totalDistance_pair:
  "totalDistance_loop [n1, n2] 0 0
     = calculateDistance (node_lat n1) (node_lng n1) (node_lat n2) (node_lng n2)"
  by (simp add: totalDistance_loop.simps [of _ 0] totalDistance_loop.simps [of _ "Suc 0"] totalDistance_loop.simps [of _ "Suc (Suc 0)"])


lemma persona_tip_plain:
  "persona \<noteq> ''new-student'' \<Longrightarrow> persona \<noteq> ''cat-lover'' \<Longrightarrow> persona \<noteq> ''cat-fearful'' \<Longrightarrow>
   persona_tip path persona j = []"
  by (simp add: persona_tip_def)

lemma generateDirections_unfold:
  "2 \<le> length path \<Longrightarrow>
   generateDirections path persona =
     (''Start at '' @ node_name (path ! 0))
       # concat (map (\<lambda>j. segment_line path j # persona_tip path persona j) [0..<length path - 1])
       @ [''Arrive at '' @ node_name (path ! (length path - 1)),
          [CHR 0xF0, CHR 0x9F, CHR 0x93, CHR 0x8D] @ '' Total distance: ''
            @ number_string (Math_round (totalDistance_loop path 0 0)) @ ''m'']"
  by (simp add: generateDirections_def directions_loop_concat)

lemma generateDirections_plain:
  assumes "2 \<le> length path"
    and "persona \<noteq> ''new-student''" "persona \<noteq> ''cat-lover''" "persona \<noteq> ''cat-fearful''"
  shows "generateDirections path persona =
     (''Start at '' @ node_name (path ! 0))
       # map (segment_line path) [0..<length path - 1]
       @ [''Arrive at '' @ node_name (path ! (length path - 1)),
          [CHR 0xF0, CHR 0x9F, CHR 0x93, CHR 0x8D] @ '' Total distance: ''
            @ number_string (Math_round (totalDistance_loop path 0 0)) @ ''m'']"
proof -
  have "concat (map (\<lambda>j. segment_line path j # persona_tip path persona j) [0..<length path - 1])
          = map (segment_line path) [0..<length path - 1]"
    using assms(2-4) by (simp add: persona_tip_plain)
  then show ?thesis using generateDirections_unfold [OF assms(1), of persona] by simp
qed

lemma generateDirections_tip_at:
  assumes n: "2 \<le> length path" and m: "m < length path - 1"
    and tip: "\<And>j. persona_tip path persona j = (if j = m then [t] else [])"
    and p0: "p0 \<noteq> ''new-student''" "p0 \<noteq> ''cat-lover''" "p0 \<noteq> ''cat-fearful''"
  shows "generateDirections path persona =
           take (m + 2) (generateDirections path p0) @ [t] @ drop (m + 2) (generateDirections path p0)"
proof -
  let ?k = "length path - 1"
  let ?tail = "[''Arrive at '' @ node_name (path ! (length path - 1)),
          [CHR 0xF0, CHR 0x9F, CHR 0x93, CHR 0x8D] @ '' Total distance: ''
            @ number_string (Math_round (totalDistance_loop path 0 0)) @ ''m'']"
  let ?start = "''Start at '' @ node_name (path ! 0)"
  let ?seg = "segment_line path"
  have base: "generateDirections path p0 = ?start # map ?seg [0..<?k] @ ?tail"
    using generateDirections_plain [OF n p0] .
  have tk: "take (Suc m) (map ?seg [0..<?k]) = map ?seg [0..<Suc m]"
    using m by (simp add: take_map)
  have dr: "drop (Suc m) (map ?seg [0..<?k]) = map ?seg [Suc m..<?k]"
    by (simp add: drop_map)
  have len: "Suc m \<le> length (map ?seg [0..<?k])" using m by simp
  have t1: "take (m + 2) (generateDirections path p0) = ?start # map ?seg [0..<Suc m]"
    unfolding base using tk len by simp
  have t2: "drop (m + 2) (generateDirections path p0) = map ?seg [Suc m..<?k] @ ?tail"
    unfolding base using dr len by simp
  have "concat (map (\<lambda>j. ?seg j # persona_tip path persona j) [0..<?k])
          = map ?seg [0..<Suc m] @ [t] @ map ?seg [Suc m..<?k]"
    unfolding tip using m by (rule concat_single_tip)
  then have "generateDirections path persona
               = ?start # (map ?seg [0..<Suc m] @ [t] @ map ?seg [Suc m..<?k]) @ ?tail"
    using generateDirections_unfold [OF n, of persona] by simp
  then show ?thesis unfolding t1 t2 by simp
qed

lemma generateDirections_no_tip:
  assumes n: "2 \<le> length path"
    and tip: "\<And>j. j < length path - 1 \<Longrightarrow> persona_tip path persona j = []"
    and p0: "p0 \<noteq> ''new-student''" "p0 \<noteq> ''cat-lover''" "p0 \<noteq> ''cat-fearful''"
  shows "generateDirections path persona = generateDirections path p0"
proof -
  have eq: "map (\<lambda>j. segment_line path j # persona_tip path persona j) [0..<length path - 1]
          = map (\<lambda>j. [segment_line path j]) [0..<length path - 1]"
    using tip by (intro map_cong) simp_all
  have "concat (map (\<lambda>j. segment_line path j # persona_tip path persona j) [0..<length path - 1])
          = concat (map (\<lambda>j. [segment_line path j]) [0..<length path - 1])"
    by (simp only: eq)
  also have "\<dots> = map (segment_line path) [0..<length path - 1]"
    by simp
  finally have "concat (map (\<lambda>j. segment_line path j # persona_tip path persona j) [0..<length path - 1])
          = map (segment_line path) [0..<length path - 1]" .
  then show ?thesis
    using generateDirections_unfold [OF n, of persona] generateDirections_plain [OF n p0] by simp
qed

lemma generateDirections_pair:
  "generateDirections [n1, n2] persona =
     [''Start at '' @ node_name n1,
      ''Head '' @ template_direction (bearingToDirection
           (calculateBearing (node_lat n1) (node_lng n1) (node_lat n2) (node_lng n2)))
        @ '' for '' @ number_string (Math_round
           (calculateDistance (node_lat n1) (node_lng n1) (node_lat n2) (node_lng n2))) @ ''m'']
     @ (if persona = ''new-student'' then [tip_new_student]
        else if persona = ''cat-fearful'' then [tip_cat_fearful] else [])
     @ [''Arrive at '' @ node_name n2,
        [CHR 0xF0, CHR 0x9F, CHR 0x93, CHR 0x8D] @ '' Total distance: ''
          @ number_string (Math_round
             (calculateDistance (node_lat n1) (node_lng n1) (node_lat n2) (node_lng n2))) @ ''m'']"
proof -
  have "2 \<le> length [n1, n2]" by simp
  from generateDirections_unfold [OF this, of persona] show ?thesis
    by (simp add: totalDistance_pair segment_line_def persona_tip_def)
qed

lemma generateDirections_short: "length path < 2 \<Longrightarrow> generateDirections path persona = []"
  by (simp add: generateDirections_def)


text \<open>
  Claim C3, as stated: a 2-node path gives exactly 4 strings for every persona. For the
  persona new-student the loop pushes the tip after the segment line, and the result has 5.
\<close>

theorem generateDirections_counterexample:
  "length (generateDirections [node_A, node_B] ''new-student'') = 5
   \<and> generateDirections [node_A, node_B] ''new-student'' ! 2 = tip_new_student"
  by (simp add: generateDirections_pair)

text \<open>
  Claim C3, amended. A path of fewer than 2 nodes gives the empty sequence. A 2-node path
  gives the opening line, one segment line, the closing line and the total-distance line,
  with one tip after the segment line for the personas new-student and cat-fearful: 4
  strings for every other persona, 5 for these two.
\<close>

theorem generateDirections_two_nodes:
  "(length path < 2 \<longrightarrow> generateDirections path persona = [])
   \<and> generateDirections [n1, n2] persona =
     [''Start at '' @ node_name n1,
      ''Head '' @ template_direction (bearingToDirection
           (calculateBearing (node_lat n1) (node_lng n1) (node_lat n2) (node_lng n2)))
        @ '' for '' @ number_string (Math_round
           (calculateDistance (node_lat n1) (node_lng n1) (node_lat n2) (node_lng n2))) @ ''m'']
     @ (if persona = ''new-student'' then [tip_new_student]
        else if persona = ''cat-fearful'' then [tip_cat_fearful] else [])
     @ [''Arrive at '' @ node_name n2,
        [CHR 0xF0, CHR 0x9F, CHR 0x93, CHR 0x8D] @ '' Total distance: ''
          @ number_string (Math_round
             (calculateDistance (node_lat n1) (node_lng n1) (node_lat n2) (node_lng n2))) @ ''m'']
   \<and> length (generateDirections [n1, n2] persona)
         = (if persona = ''new-student'' \<or> persona = ''cat-fearful'' then 5 else 4)"
  using generateDirections_short [of path persona] generateDirections_pair [of n1 n2 persona]
  by simp

theorem generateDirections_two_nodes_witness:
  "length ([] :: PathNode list) < 2
   \<and> generateDirections [] ''faculty'' = []
   \<and> length (generateDirections [node_A, node_B] ''faculty'') = 4
   \<and> length (generateDirections [node_A, node_B] ''cat-fearful'') = 5"
  using generateDirections_two_nodes [of "[]" "''faculty''" node_A node_B]
    generateDirections_two_nodes [of "[]" "''cat-fearful''" node_A node_B]
  by simp

text \<open>
  Claim C5. On a path of at least 2 nodes, the directions for any persona are the directions
  \<open>base\<close> of a persona without a tip, with at most one tip line inserted at a position
  that depends only on the persona and the length of the path: after the first segment line
  (new-student, cat-fearful), or after the segment line of index \<open>length path div 2\<close>
  (cat-lover, when the path has such a segment). No other line differs. \<open>findPath\<close> has
  no persona argument.
\<close>

theorem persona_inserts_one_line:
  assumes n: "2 \<le> length path"
    and p0: "p0 \<noteq> ''new-student''" "p0 \<noteq> ''cat-lover''" "p0 \<noteq> ''cat-fearful''"
  shows "generateDirections path persona =
     (let base = generateDirections path p0 in
      if persona = ''new-student'' then take 2 base @ [tip_new_student] @ drop 2 base
      else if persona = ''cat-lover'' \<and> length path div 2 < length path - 1 then
        take (length path div 2 + 2) base @ [tip_cat_lover] @ drop (length path div 2 + 2) base
      else if persona = ''cat-fearful'' then take 2 base @ [tip_cat_fearful] @ drop 2 base
      else base)"
proof -
  have pos: "0 < length path - 1" using n by simp
  consider (ns) "persona = ''new-student''"
    | (cl) "persona = ''cat-lover''" "length path div 2 < length path - 1"
    | (cl2) "persona = ''cat-lover''" "\<not> length path div 2 < length path - 1"
    | (cf) "persona = ''cat-fearful''"
    | (other) "persona \<noteq> ''new-student''" "persona \<noteq> ''cat-lover''" "persona \<noteq> ''cat-fearful''"
    by blast
  then show ?thesis
  proof cases
    case ns
    have "\<And>j. persona_tip path persona j = (if j = 0 then [tip_new_student] else [])"
      using ns by (simp add: persona_tip_def)
    from generateDirections_tip_at [OF n pos this p0] ns show ?thesis by (simp add: Let_def numeral_2_eq_2)
  next
    case cl
    have "\<And>j. persona_tip path persona j = (if j = length path div 2 then [tip_cat_lover] else [])"
      using cl by (simp add: persona_tip_def)
    from generateDirections_tip_at [OF n cl(2) this p0] cl show ?thesis by (simp add: Let_def)
  next
    case cl2
    have "\<And>j. j < length path - 1 \<Longrightarrow> persona_tip path persona j = []"
      using cl2 by (auto simp: persona_tip_def)
    from generateDirections_no_tip [OF n this p0] cl2 show ?thesis by (simp add: Let_def)
  next
    case cf
    have "\<And>j. persona_tip path persona j = (if j = 0 then [tip_cat_fearful] else [])"
      using cf by (simp add: persona_tip_def)
    from generateDirections_tip_at [OF n pos this p0] cf show ?thesis by (simp add: Let_def numeral_2_eq_2)
  next
    case other
    have "\<And>j. j < length path - 1 \<Longrightarrow> persona_tip path persona j = []"
      using other by (simp add: persona_tip_def)
    from generateDirections_no_tip [OF n this p0] other show ?thesis by (simp add: Let_def)
  qed
qed


theorem persona_inserts_one_line_witness:
  "2 \<le> length [node_A, node_M, node_B]
   \<and> generateDirections [node_A, node_M, node_B] ''cat-lover''
       = take 3 (generateDirections [node_A, node_M, node_B] ''faculty'') @ [tip_cat_lover]
           @ drop 3 (generateDirections [node_A, node_M, node_B] ''faculty'')
   \<and> generateDirections [node_A, node_M, node_B] ''new-student''
       = take 2 (generateDirections [node_A, node_M, node_B] ''faculty'') @ [tip_new_student]
           @ drop 2 (generateDirections [node_A, node_M, node_B] ''faculty'')"
  using persona_inserts_one_line [of "[node_A, node_M, node_B]" "''faculty''" "''cat-lover''"]
    persona_inserts_one_line [of "[node_A, node_M, node_B]" "''faculty''" "''new-student''"]
  by (simp add: Let_def numeral_3_eq_3)

section \<open>The keyword matcher\<close>

lemma fold_add_if:
  "fold (\<lambda>x score. if P x then score + c else score) xs (s0::int)
     = s0 + c * int (length (filter P xs))"
  by (induction xs arbitrary: s0) (simp_all add: algebra_simps)

lemma fold_add:
  "fold (\<lambda>k (a::int). a + g k) ks s0 = s0 + sum_list (map g ks)"
  by (induction ks arbitrary: s0) simp_all

lemma length_filter_product:
  "int (length (filter (\<lambda>(k, t). M k t) (List.product ks ts)))
     = sum_list (map (\<lambda>k. int (length (filter (M k) ts))) ks)"
  by (induction ks) (simp_all add: filter_map comp_def)

lemma fold_fold_add_if:
  "fold (\<lambda>k score. fold (\<lambda>t score. if M k t then score + c else score) ts score) ks (s0::int)
     = s0 + c * int (length (filter (\<lambda>(k, t). M k t) (List.product ks ts)))"
  by (simp add: fold_add_if fold_add length_filter_product sum_list_const_mult)

lemma score_location_closed:
  "score_location keywords location =
     3 * int (length (filter (\<lambda>(keyword, tag). str_includes tag keyword \<or> str_includes keyword tag)
                (List.product keywords (tags location))))
     + 2 * int (length (filter (\<lambda>keyword. str_includes (toLowerCase (loc_name location)) keyword) keywords))
     + int (length (filter (\<lambda>keyword. str_includes (toLowerCase (description location)) keyword) keywords))"
  unfolding score_location_def Let_def
  by (simp add: fold_add_if fold_fold_add_if)

lemma score_location_nonneg: "0 \<le> score_location keywords location"
  by (simp add: score_location_closed)

lemma str_includes_sublist: "str_includes s sub \<longleftrightarrow> sublist sub s"
  by (induction s) (auto simp: sublist_Cons_right)

lemma split_aux_no_space:
  "list_all (\<lambda>c. \<not> is_space c) cur \<Longrightarrow>
   list_all (list_all (\<lambda>c. \<not> is_space c)) (split_aux cur b s)"
  by (induction cur b s rule: split_aux.induct) simp_all

lemma split_aux_concat:
  "concat (split_aux cur b s) = rev cur @ filter (\<lambda>c. \<not> is_space c) s"
  by (induction cur b s rule: split_aux.induct) auto

lemma filter_dropWhile_space:
  "filter (\<lambda>c. \<not> is_space c) (dropWhile is_space s) = filter (\<lambda>c. \<not> is_space c) s"
  by (induction s) simp_all

lemma filter_trim: "filter (\<lambda>c. \<not> is_space c) (trim s) = filter (\<lambda>c. \<not> is_space c) s"
proof -
  have "filter (\<lambda>c. \<not> is_space c) (trim s)
          = rev (filter (\<lambda>c. \<not> is_space c) (dropWhile is_space (rev (dropWhile is_space s))))"
    by (simp add: trim_def rev_filter)
  also have "\<dots> = rev (filter (\<lambda>c. \<not> is_space c) (rev (dropWhile is_space s)))"
    by (simp only: filter_dropWhile_space)
  also have "\<dots> = filter (\<lambda>c. \<not> is_space c) (dropWhile is_space s)"
    by (simp add: rev_filter)
  finally show ?thesis by (simp only: filter_dropWhile_space)
qed

lemma split_ws_concat:
  "concat (split_ws (trim s)) = filter (\<lambda>c. \<not> is_space c) s"
  by (simp add: split_ws_def split_aux_concat filter_trim)

lemma extract_keywords_tokens:
  "w \<in> set (extract_keywords q) \<Longrightarrow> 2 < length w \<and> (\<forall>c \<in> set w. \<not> is_space c)"
proof -
  assume w: "w \<in> set (extract_keywords q)"
  have "list_all (list_all (\<lambda>c. \<not> is_space c)) (split_aux [] False (trim (toLowerCase q)))"
    by (rule split_aux_no_space) simp
  then have "\<forall>w \<in> set (split_ws (trim (toLowerCase q))). \<forall>c \<in> set w. \<not> is_space c"
    by (simp add: split_ws_def list_all_iff)
  then show ?thesis using w by (auto simp: extract_keywords_def)
qed

lemma extract_keywords_short:
  "\<forall>w \<in> set (split_ws (trim (toLowerCase q))). length w \<le> 2 \<Longrightarrow> extract_keywords q = []"
  by (auto simp: extract_keywords_def filter_empty_conv)

lemma find_filter_Cons: "filter P xs = b # ys \<Longrightarrow> find P xs = Some b"
  by (induction xs) (auto split: if_splits)

lemma find_map_option: "find P (map f xs) = map_option f (find (P \<circ> f) xs)"
  by (induction xs) simp_all


lemma scoredLocations_head:
  assumes "locations \<noteq> []"
  shows "\<exists>best rest. scoredLocations locations keywords = (best, score_location keywords best) # rest
           \<and> best \<in> set locations
           \<and> (\<forall>l \<in> set locations. score_location keywords l \<le> score_location keywords best)
           \<and> find (\<lambda>l. score_location keywords l = score_location keywords best) locations = Some best"
proof -
  let ?f = "\<lambda>p::Location \<times> int. - snd p"
  let ?xs = "map (\<lambda>location. (location, score_location keywords location)) locations"
  have "length (sort_key ?f ?xs) = length locations" by simp
  then obtain b rest where br: "sort_key ?f ?xs = b # rest"
    using assms by (cases "sort_key ?f ?xs") auto
  have "b \<in> set (sort_key ?f ?xs)" unfolding br by simp
  then have bin: "b \<in> set ?xs" by simp
  then have b: "fst b \<in> set locations" "snd b = score_location keywords (fst b)" by auto
  have "sorted (map ?f (sort_key ?f ?xs))" by (rule sorted_sort_key)
  then have "\<forall>p \<in> set rest. ?f b \<le> ?f p" unfolding br by simp
  then have "\<forall>p \<in> set (sort_key ?f ?xs). snd p \<le> snd b" unfolding br by auto
  then have mx: "\<forall>p \<in> set ?xs. snd p \<le> snd b" by simp
  then have mx': "\<forall>l \<in> set locations. score_location keywords l \<le> score_location keywords (fst b)"
    using b(2) by auto
  have st: "filter (\<lambda>y. ?f y = ?f b) (sort_key ?f ?xs) = filter (\<lambda>y. ?f y = ?f b) ?xs"
    by (rule sort_key_stable)
  have "filter (\<lambda>y. ?f y = ?f b) (sort_key ?f ?xs) = b # filter (\<lambda>y. ?f y = ?f b) rest"
    unfolding br by simp
  then have "filter (\<lambda>y. ?f y = ?f b) ?xs = b # filter (\<lambda>y. ?f y = ?f b) rest"
    using st by simp
  then have "find (\<lambda>y. ?f y = ?f b) ?xs = Some b"
    by (rule find_filter_Cons)
  then have "map_option (\<lambda>location. (location, score_location keywords location))
               (find (\<lambda>l. score_location keywords l = snd b) locations) = Some b"
    by (simp add: find_map_option comp_def)
  then have fd: "find (\<lambda>l. score_location keywords l = score_location keywords (fst b)) locations
                  = Some (fst b)"
    using b(2) by auto
  have "b = (fst b, score_location keywords (fst b))"
    using b(2) by (cases b) simp
  then have hd: "scoredLocations locations keywords = (fst b, score_location keywords (fst b)) # rest"
    using br by (simp add: scoredLocations_def)
  show ?thesis
  proof (intro exI conjI)
    show "scoredLocations locations keywords = (fst b, score_location keywords (fst b)) # rest"
      by (fact hd)
    show "fst b \<in> set locations" by (fact b(1))
    show "\<forall>l \<in> set locations. score_location keywords l \<le> score_location keywords (fst b)"
      by (fact mx')
    show "find (\<lambda>l. score_location keywords l = score_location keywords (fst b)) locations
            = Some (fst b)" by (fact fd)
  qed
qed

lemma processQuery_fallback:
  assumes "scoredLocations locations (extract_keywords userQuery) = (best, sc) # rest" and "\<not> 0 < sc"
  shows "processQuery err locations st userQuery =
           Inr (st\<lparr>messages := messages st
                  @ [\<lparr>msg_type = user, msg_text = userQuery\<rparr>, \<lparr>msg_type = ai, msg_text = fallback_text\<rparr>]\<rparr>)"
  using assms by (simp add: processQuery_def)

lemma processQuery_route:
  assumes "scoredLocations locations (extract_keywords userQuery) = (best, sc) # rest" and "0 < sc"
    and "userLocation st = Some (ulat, ulng)" and "locationPermission st = granted"
    and "findNearestLocation err locations ulat ulng = Some nearest"
  shows "processQuery err locations st userQuery =
           Inr (st\<lparr>messages := messages st
                  @ [\<lparr>msg_type = user, msg_text = userQuery\<rparr>,
                     \<lparr>msg_type = ai, msg_text =
                        ''Perfect! I found '' @ loc_name best @ '' for you. '' @ description best
                          @ '' I'm showing you the route from '' @ loc_name nearest
                          @ '' (nearest to your current location).''\<rparr>],
                calls := calls st @ [onRouteRequest (loc_name nearest) (loc_name best), onLocationFound best]\<rparr>)"
  using assms by (simp add: processQuery_def)


lemma processQuery_found:
  assumes "scoredLocations locations (extract_keywords userQuery) = (best, sc) # rest" and "0 < sc"
  shows "\<exists>st'. processQuery err locations st userQuery = Inr st'
           \<and> calls st' = calls st
                @ (case (userLocation st, locationPermission st) of
                     (Some (lat, lng), granted) \<Rightarrow>
                       (case findNearestLocation err locations lat lng of
                          Some nearestLocation \<Rightarrow> [onRouteRequest (loc_name nearestLocation) (loc_name best)]
                        | None \<Rightarrow> [])
                   | _ \<Rightarrow> [])
                @ [onLocationFound best]
           \<and> butlast (messages st') = messages st @ [\<lparr>msg_type = user, msg_text = userQuery\<rparr>]
           \<and> msg_type (last (messages st')) = ai"
  using assms by (auto simp: processQuery_def Let_def butlast_append split: option.splits Permission.splits prod.splits)

lemma nav_calculateDistance_double_cases:
  "nav_calculateDistance_double err lat1 lon1 lat2 lon2 = NaN
   \<or> (\<exists>d. nav_calculateDistance_double err lat1 lon1 lat2 lon2 = Num d)"
  by (simp add: nav_calculateDistance_double_def Math_sqrt_def Let_def)

lemma nearest_fold:
  "(fold (nearest_step err ulat ulng) locations (None, POSITIVE_INFINITY) = (None, POSITIVE_INFINITY)
      \<and> (\<forall>l \<in> set locations.
            nav_calculateDistance_double err ulat ulng (loc_lat l) (loc_lng l) = NaN))
   \<or> (\<exists>l d. fold (nearest_step err ulat ulng) locations (None, POSITIVE_INFINITY) = (Some l, Num d)
          \<and> l \<in> set locations
          \<and> nav_calculateDistance_double err ulat ulng (loc_lat l) (loc_lng l) = Num d
          \<and> (\<forall>l' \<in> set locations. \<forall>d'.
                nav_calculateDistance_double err ulat ulng (loc_lat l') (loc_lng l') = Num d'
                  \<longrightarrow> d \<le> d'))"
proof (induction locations rule: rev_induct)
  case Nil
  then show ?case by simp
next
  case (snoc x xs)
  let ?D = "\<lambda>l. nav_calculateDistance_double err ulat ulng (loc_lat l) (loc_lng l)"
  let ?F = "\<lambda>ys. fold (nearest_step err ulat ulng) ys (None, POSITIVE_INFINITY)"
  consider (nan) "?D x = NaN" | (num) dx where "?D x = Num dx"
    using nav_calculateDistance_double_cases [of err ulat ulng "loc_lat x" "loc_lng x"] by blast
  then show ?case
  proof cases
    case nan
    then have same: "?F (xs @ [x]) = ?F xs" by (simp add: nearest_step_def)
    from snoc show ?thesis
    proof (elim disjE conjE exE)
      assume "?F xs = (None, POSITIVE_INFINITY)" "\<forall>l \<in> set xs. ?D l = NaN"
      then show ?thesis using nan same by simp
    next
      fix l d
      assume "?F xs = (Some l, Num d)" "l \<in> set xs" "?D l = Num d"
        "\<forall>l' \<in> set xs. \<forall>d'. ?D l' = Num d' \<longrightarrow> d \<le> d'"
      then have "?F (xs @ [x]) = (Some l, Num d) \<and> l \<in> set (xs @ [x]) \<and> ?D l = Num d
          \<and> (\<forall>l' \<in> set (xs @ [x]). \<forall>d'. ?D l' = Num d' \<longrightarrow> d \<le> d')"
        using nan same by simp
      then show ?thesis by blast
    qed
  next
    case num
    from snoc show ?thesis
    proof (elim disjE conjE exE)
      assume f: "?F xs = (None, POSITIVE_INFINITY)" and a: "\<forall>l \<in> set xs. ?D l = NaN"
      have "?F (xs @ [x]) = (Some x, Num dx)" using f num by (simp add: nearest_step_def)
      moreover have "\<forall>l' \<in> set (xs @ [x]). \<forall>d'. ?D l' = Num d' \<longrightarrow> dx \<le> d'"
        using a num by auto
      ultimately have "?F (xs @ [x]) = (Some x, Num dx) \<and> x \<in> set (xs @ [x]) \<and> ?D x = Num dx
          \<and> (\<forall>l' \<in> set (xs @ [x]). \<forall>d'. ?D l' = Num d' \<longrightarrow> dx \<le> d')"
        using num by simp
      then show ?thesis by blast
    next
      fix l d
      assume f: "?F xs = (Some l, Num d)" and l: "l \<in> set xs" and dl: "?D l = Num d"
        and m: "\<forall>l' \<in> set xs. \<forall>d'. ?D l' = Num d' \<longrightarrow> d \<le> d'"
      show ?thesis
      proof (cases "dx < d")
        case True
        have "?F (xs @ [x]) = (Some x, Num dx)" using f num True by (simp add: nearest_step_def)
        moreover have "\<forall>l' \<in> set (xs @ [x]). \<forall>d'. ?D l' = Num d' \<longrightarrow> dx \<le> d'"
          using m num True by fastforce
        ultimately have "?F (xs @ [x]) = (Some x, Num dx) \<and> x \<in> set (xs @ [x]) \<and> ?D x = Num dx
            \<and> (\<forall>l' \<in> set (xs @ [x]). \<forall>d'. ?D l' = Num d' \<longrightarrow> dx \<le> d')"
          using num by simp
        then show ?thesis by blast
      next
        case False
        have "?F (xs @ [x]) = (Some l, Num d)" using f num False by (simp add: nearest_step_def)
        moreover have "\<forall>l' \<in> set (xs @ [x]). \<forall>d'. ?D l' = Num d' \<longrightarrow> d \<le> d'"
          using m num False by fastforce
        ultimately have "?F (xs @ [x]) = (Some l, Num d) \<and> l \<in> set (xs @ [x]) \<and> ?D l = Num d
            \<and> (\<forall>l' \<in> set (xs @ [x]). \<forall>d'. ?D l' = Num d' \<longrightarrow> d \<le> d')"
          using l dl by simp
        then show ?thesis by blast
      qed
    qed
  qed
qed

text \<open>
  The scan returns a registry location whose computed distance is a number and is the least
  of the computed distances that are numbers; it returns nothing exactly when every
  computed distance is \<open>NaN\<close>, as over the empty registry.
\<close>

lemma findNearestLocation_Some:
  "findNearestLocation err locations ulat ulng = Some l \<Longrightarrow>
   l \<in> set locations
   \<and> (\<exists>d. nav_calculateDistance_double err ulat ulng (loc_lat l) (loc_lng l) = Num d
        \<and> (\<forall>l' \<in> set locations. \<forall>d'.
              nav_calculateDistance_double err ulat ulng (loc_lat l') (loc_lng l') = Num d'
                \<longrightarrow> d \<le> d'))"
  using nearest_fold [of err ulat ulng locations] unfolding findNearestLocation_def by auto

lemma findNearestLocation_None:
  "findNearestLocation err locations ulat ulng = None \<longleftrightarrow>
   (\<forall>l \<in> set locations. nav_calculateDistance_double err ulat ulng (loc_lat l) (loc_lng l) = NaN)"
  using nearest_fold [of err ulat ulng locations] unfolding findNearestLocation_def by auto

text \<open>In exact arithmetic the computed distance is the real one, and never \<open>NaN\<close>.\<close>

lemma nav_calculateDistance_double_exact:
  "nav_calculateDistance_double err_exact lat1 lon1 lat2 lon2
     = Num (nav_calculateDistance lat1 lon1 lat2 lon2)"
proof -
  let ?p1 = "(lat1 * pi) / 180" and ?p2 = "(lat2 * pi) / 180" and ?l = "((lon2 - lon1) * pi) / 180"
  let ?a = "sin ((?p2 - ?p1) / 2) * sin ((?p2 - ?p1) / 2) + cos ?p1 * cos ?p2 * sin (?l / 2) * sin (?l / 2)"
  have d: "((lat2 - lat1) * pi) / 180 = ?p2 - ?p1" by (simp add: algebra_simps diff_divide_distrib)
  have r: "0 \<le> ?a \<and> ?a \<le> 1" by (rule haversine_range)
  then have "\<not> ?a < 0" "\<not> 1 - ?a < 0" by simp_all
  then show ?thesis
    unfolding nav_calculateDistance_double_def nav_calculateDistance_def Let_def d err_exact_def
    by (simp add: Math_sqrt_def)
qed

lemma findNearestLocation_exact:
  assumes "locations \<noteq> []"
  shows "\<exists>l. findNearestLocation err_exact locations ulat ulng = Some l \<and> l \<in> set locations
      \<and> (\<forall>l' \<in> set locations. nav_calculateDistance ulat ulng (loc_lat l) (loc_lng l)
                 \<le> nav_calculateDistance ulat ulng (loc_lat l') (loc_lng l'))"
proof -
  obtain x where "x \<in> set locations" using assms by (cases locations) auto
  then have "findNearestLocation err_exact locations ulat ulng \<noteq> None"
    by (auto simp: findNearestLocation_None nav_calculateDistance_double_exact)
  then obtain l where l: "findNearestLocation err_exact locations ulat ulng = Some l" by blast
  from findNearestLocation_Some [OF l] show ?thesis
    using l by (auto simp: nav_calculateDistance_double_exact)
qed


text \<open>
  Claim C1, as stated: the tag part of the score is 3 per token that matches any tag. The
  code adds 3 for every pair of a token and a tag that match: the token study matches the
  two tags study and study-room of the location A, which scores 6, not 3.
\<close>

theorem score_location_counterexample:
  "score_location (extract_keywords ''study'') loc_A = 6
   \<and> spec_score (extract_keywords ''study'') loc_A = 3"
  by code_simp

text \<open>
  Claim C1, amended. The keywords of a query are the tokens, longer than 2, of the lowercased
  and trimmed query split on whitespace; the tokens hold, in order, the characters of the
  lowercased query that are no whitespace. The score of a location is 3 for every pair of a
  keyword and a tag of which one is a substring of the other, plus 2 for every keyword that
  is a substring of the lowercased name, plus 1 for every keyword that is a substring of the
  lowercased description. Over a registry that is not empty, the head of the sorted scores
  is a registry location of the highest score, the first such one in registry order, and
  when its score is positive it is the location that is recommended.
\<close>

theorem keyword_matcher:
  "extract_keywords q = filter (\<lambda>w. 2 < length w) (split_ws (trim (toLowerCase q)))
   \<and> concat (split_ws (trim (toLowerCase q))) = filter (\<lambda>c. \<not> is_space c) (toLowerCase q)
   \<and> (\<forall>w \<in> set (extract_keywords q). 2 < length w \<and> (\<forall>c \<in> set w. \<not> is_space c))
   \<and> score_location keywords location =
       3 * int (length (filter (\<lambda>(keyword, tag). str_includes tag keyword \<or> str_includes keyword tag)
                  (List.product keywords (tags location))))
       + 2 * int (length (filter (\<lambda>keyword. str_includes (toLowerCase (loc_name location)) keyword) keywords))
       + int (length (filter (\<lambda>keyword. str_includes (toLowerCase (description location)) keyword) keywords))
   \<and> (locations \<noteq> [] \<longrightarrow>
        (\<exists>best rest.
           scoredLocations locations (extract_keywords q)
             = (best, score_location (extract_keywords q) best) # rest
           \<and> best \<in> set locations
           \<and> (\<forall>l \<in> set locations.
                 score_location (extract_keywords q) l \<le> score_location (extract_keywords q) best)
           \<and> find (\<lambda>l. score_location (extract_keywords q) l = score_location (extract_keywords q) best)
                 locations = Some best
           \<and> (0 < score_location (extract_keywords q) best \<longrightarrow>
                (\<exists>st'. processQuery err locations st q = Inr st'
                   \<and> last (calls st') = onLocationFound best
                   \<and> butlast (messages st') = messages st @ [\<lparr>msg_type = user, msg_text = q\<rparr>]))))"
proof (intro conjI impI)
  show "extract_keywords q = filter (\<lambda>w. 2 < length w) (split_ws (trim (toLowerCase q)))"
    by (simp add: extract_keywords_def)
  show "concat (split_ws (trim (toLowerCase q))) = filter (\<lambda>c. \<not> is_space c) (toLowerCase q)"
    by (rule split_ws_concat)
  show "\<forall>w \<in> set (extract_keywords q). 2 < length w \<and> (\<forall>c \<in> set w. \<not> is_space c)"
    using extract_keywords_tokens by blast
  show "score_location keywords location =
       3 * int (length (filter (\<lambda>(keyword, tag). str_includes tag keyword \<or> str_includes keyword tag)
                  (List.product keywords (tags location))))
       + 2 * int (length (filter (\<lambda>keyword. str_includes (toLowerCase (loc_name location)) keyword) keywords))
       + int (length (filter (\<lambda>keyword. str_includes (toLowerCase (description location)) keyword) keywords))"
    by (rule score_location_closed)
next
  assume "locations \<noteq> []"
  from scoredLocations_head [OF this, of "extract_keywords q"]
  obtain best rest where h:
    "scoredLocations locations (extract_keywords q) = (best, score_location (extract_keywords q) best) # rest"
    "best \<in> set locations"
    "\<forall>l \<in> set locations. score_location (extract_keywords q) l \<le> score_location (extract_keywords q) best"
    "find (\<lambda>l. score_location (extract_keywords q) l = score_location (extract_keywords q) best) locations
       = Some best"
    by blast
  have "0 < score_location (extract_keywords q) best \<longrightarrow>
          (\<exists>st'. processQuery err locations st q = Inr st'
             \<and> last (calls st') = onLocationFound best
             \<and> butlast (messages st') = messages st @ [\<lparr>msg_type = user, msg_text = q\<rparr>])"
  proof
    assume "0 < score_location (extract_keywords q) best"
    from processQuery_found [OF h(1) this, of err st]
    obtain st' where "processQuery err locations st q = Inr st'"
      and c: "calls st' = calls st
                @ (case (userLocation st, locationPermission st) of
                     (Some (lat, lng), granted) \<Rightarrow>
                       (case findNearestLocation err locations lat lng of
                          Some nearestLocation \<Rightarrow> [onRouteRequest (loc_name nearestLocation) (loc_name best)]
                        | None \<Rightarrow> [])
                   | _ \<Rightarrow> [])
                @ [onLocationFound best]"
      and "butlast (messages st') = messages st @ [\<lparr>msg_type = user, msg_text = q\<rparr>]"
      by blast
    moreover have "last (calls st') = onLocationFound best"
      by (subst c) (simp only: append_assoc [symmetric] last_snoc)
    ultimately show "\<exists>st'. processQuery err locations st q = Inr st'
             \<and> last (calls st') = onLocationFound best
             \<and> butlast (messages st') = messages st @ [\<lparr>msg_type = user, msg_text = q\<rparr>]"
      by blast
  qed
  with h show "\<exists>best rest.
           scoredLocations locations (extract_keywords q)
             = (best, score_location (extract_keywords q) best) # rest
           \<and> best \<in> set locations
           \<and> (\<forall>l \<in> set locations.
                 score_location (extract_keywords q) l \<le> score_location (extract_keywords q) best)
           \<and> find (\<lambda>l. score_location (extract_keywords q) l = score_location (extract_keywords q) best)
                 locations = Some best
           \<and> (0 < score_location (extract_keywords q) best \<longrightarrow>
                (\<exists>st'. processQuery err locations st q = Inr st'
                   \<and> last (calls st') = onLocationFound best
                   \<and> butlast (messages st') = messages st @ [\<lparr>msg_type = user, msg_text = q\<rparr>]))"
    by (intro exI [of _ best] exI [of _ rest]) simp
qed


theorem keyword_matcher_witness:
  "[loc_B, loc_A] \<noteq> []
   \<and> extract_keywords ''Show me a quiet place to study'' = [''show'', ''quiet'', ''place'', ''study'']
   \<and> score_location (extract_keywords ''Show me a quiet place to study'') loc_A = 10
   \<and> score_location (extract_keywords ''Show me a quiet place to study'') loc_B = 0
   \<and> (\<exists>st'. processQuery err_exact [loc_B, loc_A] nav_0 ''Show me a quiet place to study'' = Inr st'
          \<and> last (calls st') = onLocationFound loc_A)"
proof -
  let ?q = "''Show me a quiet place to study''"
  have kw: "extract_keywords ?q = [''show'', ''quiet'', ''place'', ''study'']"
    by code_simp
  have sa: "score_location (extract_keywords ?q) loc_A = 10" by code_simp
  have sb: "score_location (extract_keywords ?q) loc_B = 0" by code_simp
  have sl: "scoredLocations [loc_B, loc_A] (extract_keywords ?q) = [(loc_A, 10), (loc_B, 0)]"
    by code_simp
  have ne: "[loc_B, loc_A] \<noteq> []" by simp
  from keyword_matcher [where q = ?q and locations = "[loc_B, loc_A]" and st = nav_0
      and err = err_exact] ne
  obtain best rest where
    h: "scoredLocations [loc_B, loc_A] (extract_keywords ?q)
          = (best, score_location (extract_keywords ?q) best) # rest"
    and p: "0 < score_location (extract_keywords ?q) best \<longrightarrow>
          (\<exists>st'. processQuery err_exact [loc_B, loc_A] nav_0 ?q = Inr st'
             \<and> last (calls st') = onLocationFound best
             \<and> butlast (messages st') = messages nav_0 @ [\<lparr>msg_type = user, msg_text = ?q\<rparr>])"
    by blast
  from h sl have "best = loc_A" by simp
  with p sa have "\<exists>st'. processQuery err_exact [loc_B, loc_A] nav_0 ?q = Inr st'
          \<and> last (calls st') = onLocationFound loc_A" by auto
  with ne kw sa sb show ?thesis by blast
qed

text \<open>
  Claim C8. Over a registry that is not empty, when no location scores above 0 the widget
  appends the user's message and the fixed fallback message and calls neither callback; this
  is so for every query whose whitespace tokens all have length at most 2, since every
  location then scores 0.
\<close>

theorem processQuery_zero_score_fallback:
  "(locations \<noteq> [] \<and> (\<forall>l \<in> set locations. score_location (extract_keywords q) l \<le> 0) \<longrightarrow>
      (\<exists>st'. processQuery err locations st q = Inr st'
         \<and> messages st' = messages st
              @ [\<lparr>msg_type = user, msg_text = q\<rparr>, \<lparr>msg_type = ai, msg_text = fallback_text\<rparr>]
         \<and> calls st' = calls st))
   \<and> ((\<forall>w \<in> set (split_ws (trim (toLowerCase q))). length w \<le> 2) \<longrightarrow>
        (\<forall>l. score_location (extract_keywords q) l = 0))"
proof (intro conjI impI allI)
  assume a: "locations \<noteq> [] \<and> (\<forall>l \<in> set locations. score_location (extract_keywords q) l \<le> 0)"
  then have "locations \<noteq> []" by simp
  from scoredLocations_head [OF this, of "extract_keywords q"]
  obtain best rest where h:
    "scoredLocations locations (extract_keywords q) = (best, score_location (extract_keywords q) best) # rest"
    "best \<in> set locations"
    by blast
  from a h(2) have "\<not> 0 < score_location (extract_keywords q) best" by (simp add: not_less)
  from processQuery_fallback [OF h(1) this, of err st]
  show "\<exists>st'. processQuery err locations st q = Inr st'
         \<and> messages st' = messages st
              @ [\<lparr>msg_type = user, msg_text = q\<rparr>, \<lparr>msg_type = ai, msg_text = fallback_text\<rparr>]
         \<and> calls st' = calls st"
    by simp
next
  fix l
  assume "\<forall>w \<in> set (split_ws (trim (toLowerCase q))). length w \<le> 2"
  then have "extract_keywords q = []" by (rule extract_keywords_short)
  then show "score_location (extract_keywords q) l = 0" by (simp add: score_location_def)
qed

theorem processQuery_zero_score_fallback_witness:
  "[loc_A, loc_B] \<noteq> []
   \<and> split_ws (trim (toLowerCase ''Hi to me'')) = [''hi'', ''to'', ''me'']
   \<and> score_location (extract_keywords ''Hi to me'') loc_A = 0
   \<and> score_location (extract_keywords ''Hi to me'') loc_B = 0
   \<and> processQuery err_exact [loc_A, loc_B] nav_0 ''Hi to me''
       = Inr (nav_0\<lparr>messages := [\<lparr>msg_type = user, msg_text = ''Hi to me''\<rparr>,
                                 \<lparr>msg_type = ai, msg_text = fallback_text\<rparr>]\<rparr>)"
proof -
  let ?q = "''Hi to me''"
  have ne: "[loc_A, loc_B] \<noteq> []" by simp
  have sp: "split_ws (trim (toLowerCase ?q)) = [''hi'', ''to'', ''me'']" by code_simp
  then have sh: "\<forall>w \<in> set (split_ws (trim (toLowerCase ?q))). length w \<le> 2" by simp
  note t = processQuery_zero_score_fallback
    [where locations = "[loc_A, loc_B]" and q = ?q and st = nav_0 and err = err_exact]
  from t sh have z: "\<forall>l. score_location (extract_keywords ?q) l = 0" by blast
  then have le: "\<forall>l \<in> set [loc_A, loc_B]. score_location (extract_keywords ?q) l \<le> 0" by simp
  with t ne obtain st' where r: "processQuery err_exact [loc_A, loc_B] nav_0 ?q = Inr st'"
    and m: "messages st' = messages nav_0
              @ [\<lparr>msg_type = user, msg_text = ?q\<rparr>, \<lparr>msg_type = ai, msg_text = fallback_text\<rparr>]"
    and c: "calls st' = calls nav_0"
    by blast
  have "processQuery err_exact [loc_A, loc_B] nav_0 ?q
       = Inr (nav_0\<lparr>messages := [\<lparr>msg_type = user, msg_text = ?q\<rparr>,
                                 \<lparr>msg_type = ai, msg_text = fallback_text\<rparr>]\<rparr>)"
    using z by (simp add: processQuery_def scoredLocations_def nav_0_def)
  with ne sp z show ?thesis by blast
qed


end
